theory Spec2Isabelle
  imports Main "HOL-Library.Word"
begin

section \<open>JavaScript strings and values\<close>

text \<open>
  A JavaScript string is a sequence of UTF-16 code units. String literals of the
  script are ASCII apart from the two rule symbols, so \<open>js\<close> lifts an ASCII literal
  to its code units; the symbols are written out as code units below.
\<close>

type_synonym jsstring = "16 word list"

definition js :: "string \<Rightarrow> jsstring" where
  "js s = map (\<lambda>c. of_nat (of_char c)) s"

definition nl :: "16 word" where
  "nl = 0x0A"

text \<open>
  The code units that \<open>String.prototype.trimStart\<close> and \<open>trimEnd\<close> strip: ECMAScript's
  WhiteSpace and LineTerminator productions.
\<close>

definition isWhiteSpace :: "16 word \<Rightarrow> bool" where
  "isWhiteSpace c \<longleftrightarrow> c \<in> set [0x09, 0x0A, 0x0B, 0x0C, 0x0D, 0x20, 0xA0, 0x1680,
     0x2000, 0x2001, 0x2002, 0x2003, 0x2004, 0x2005, 0x2006, 0x2007, 0x2008, 0x2009, 0x200A,
     0x2028, 0x2029, 0x202F, 0x205F, 0x3000, 0xFEFF]"

definition trimStart :: "jsstring \<Rightarrow> jsstring" where
  "trimStart s = dropWhile isWhiteSpace s"

definition trimEnd :: "jsstring \<Rightarrow> jsstring" where
  "trimEnd s = rev (dropWhile isWhiteSpace (rev s))"

text \<open>
  A value interpolated into a template literal: \<open>None\<close> is JavaScript's \<open>undefined\<close>,
  which prints as the word itself.
\<close>

definition templ :: "jsstring option \<Rightarrow> jsstring" where
  "templ v = (case v of None \<Rightarrow> js ''undefined'' | Some s \<Rightarrow> s)"

text \<open>Every failure of the script is an uncaught \<open>TypeError\<close> (a property read on \<open>undefined\<close> or \<open>null\<close>).\<close>

datatype error = TypeError

text \<open>\<open>xs[i]\<close>: \<open>undefined\<close> out of range.\<close>

definition at :: "'a list \<Rightarrow> nat \<Rightarrow> 'a option" where
  "at xs i = (if i < length xs then Some (xs ! i) else None)"

text \<open>\<open>xs.splice(start, deleteCount, ...items)\<close>, as the list it leaves in \<open>xs\<close>.\<close>

definition splice :: "nat \<Rightarrow> nat \<Rightarrow> 'a list \<Rightarrow> 'a list \<Rightarrow> 'a list" where
  "splice start deleteCount items xs = take start xs @ items @ drop (start + deleteCount) xs"

section \<open>The syntax tree\<close>

text \<open>
  A node of the parsed document: its \<open>type\<close>, and the optional attributes the script
  reads or writes, \<open>children\<close>, \<open>value\<close> and \<open>url\<close>. An absent attribute is \<open>None\<close>
  (\<open>undefined\<close> in the script); an empty child list is \<open>Some []\<close>.
\<close>

datatype node =
  Node (ntype: jsstring) (children: "node list option") (nvalue: "jsstring option")
    (url: "jsstring option")

section \<open>The traversal engine\<close>

text \<open>
  Modelled from the spec: \<open>visit(tree, types, visitor)\<close> of the package
  unist-util-visit, which is not part of the sources. The engine walks the tree depth
  first in document order; it calls the visitor on every node whose type is among
  \<open>types\<close> and then descends into the children of that node, one after the other.
  This is the walk for a visitor that assigns attributes of the node it is given and
  leaves every child list as it is; the passes that splice child lists are modelled
  by their visitors, which receive the node, its index and the parent's children.
\<close>

fun visit :: "jsstring list \<Rightarrow> (node \<Rightarrow> node) \<Rightarrow> node \<Rightarrow> node" where
  "visit types visitor (Node t cs v u) =
     (let node = (if t \<in> set types then visitor (Node t cs v u) else Node t cs v u)
      in Node (ntype node) (map_option (map (visit types visitor)) cs) (nvalue node) (url node))"

section \<open>rewriteLink\<close>

text \<open>
  The visitor: \<open>node.url = options.rewriter(node.url)\<close>. The rewriter is the caller's
  function; it receives whatever \<open>node.url\<close> holds.
\<close>

definition rewriteLink_visitor :: "(jsstring option \<Rightarrow> jsstring option) \<Rightarrow> node \<Rightarrow> node" where
  "rewriteLink_visitor rewriter node =
     Node (ntype node) (children node) (nvalue node) (rewriter (url node))"

text \<open>The transform: \<open>visit(tree, ['link'], visitor)\<close>.\<close>

definition rewriteLink :: "(jsstring option \<Rightarrow> jsstring option) \<Rightarrow> node \<Rightarrow> node" where
  "rewriteLink rewriter tree = visit [js ''link''] (rewriteLink_visitor rewriter) tree"

section \<open>wrapProblemExample\<close>

text \<open>\<open>x?.value ?? ''\<close> for an array element \<open>x\<close> that may be missing.\<close>

definition valueOrEmpty :: "node option \<Rightarrow> jsstring" where
  "valueOrEmpty x = (case x of None \<Rightarrow> [] | Some n \<Rightarrow> (case nvalue n of None \<Rightarrow> [] | Some v \<Rightarrow> v))"

definition triggerSentences :: "jsstring list" where
  "triggerSentences =
     [js ''The following patterns are considered problems:'',
      js ''The following pattern is considered a problem:'']"

text \<open>
  \<open>isTrigger\<close>: the destructuring \<open>[first, , last] = node.children\<close> binds the
  children at positions 0 and 2.
\<close>

definition isTrigger :: "node \<Rightarrow> bool" where
  "isTrigger node =
     (if ntype node \<noteq> js ''paragraph'' then False
      else case children node of
        None \<Rightarrow> False
      | Some cs \<Rightarrow>
          (let first = at cs 0;
               last = at cs 2;
               text = trimEnd (valueOrEmpty first) @ valueOrEmpty last
           in text \<in> set triggerSentences))"

text \<open>
  \<open>node.children[1]?.children[0]?.value === 'not'\<close>. The optional chain stops at a
  missing second child and at a missing first grandchild; a second child that has no
  \<open>children\<close> attribute makes the index read throw.
\<close>

definition isValid :: "node \<Rightarrow> error + bool" where
  "isValid node =
     (case children node of
        None \<Rightarrow> Inl TypeError
      | Some cs \<Rightarrow>
          (case at cs 1 of
             None \<Rightarrow> Inr False
           | Some second \<Rightarrow>
               (case children second of
                  None \<Rightarrow> Inl TypeError
                | Some gs \<Rightarrow>
                    (case at gs 0 of
                       None \<Rightarrow> Inr False
                     | Some g \<Rightarrow> Inr (nvalue g = Some (js ''not''))))))"

definition htmlNode :: "jsstring \<Rightarrow> node" where
  "htmlNode v = Node (js ''html'') None (Some v) None"

definition wrapperStart :: "bool \<Rightarrow> node" where
  \<open>wrapperStart valid =
     (let className = (if valid then js ''valid-pattern'' else js ''invalid-pattern'')
      in htmlNode (js ''<div class="'' @ className @ js ''">''))\<close>

definition wrapperEnd :: node where
  "wrapperEnd = htmlNode (js ''</div>'')"

text \<open>The \<open>while\<close> loop that looks for the end position.\<close>

function findEnd :: "node list \<Rightarrow> nat \<Rightarrow> nat \<Rightarrow> nat" where
  "findEnd cs childrenLength endIndex =
     (if endIndex < childrenLength then
        (let child = cs ! endIndex in
         if isTrigger child \<or> ntype child = js ''heading'' then endIndex
         else findEnd cs childrenLength (endIndex + 1))
      else endIndex)"
  by pat_completeness auto
termination
  by (relation "measure (\<lambda>(cs, childrenLength, endIndex). childrenLength - endIndex)") auto

declare findEnd.simps [simp del]

text \<open>
  The visitor, called by \<open>visit\<close> with a trigger paragraph, its index in the parent's
  children and the parent; the result is the parent's child list afterwards.
\<close>

definition wrapProblemExample_visitor :: "node \<Rightarrow> nat \<Rightarrow> node list \<Rightarrow> error + node list" where
  "wrapProblemExample_visitor node index pcs =
     (case isValid node of
        Inl e \<Rightarrow> Inl e
      | Inr valid \<Rightarrow>
          (let cs1 = splice (index + 1) 0 [wrapperStart valid] pcs;
               childrenLength = length cs1;
               endIndex = findEnd cs1 childrenLength (index + 1)
           in Inr (if endIndex = childrenLength then cs1 @ [wrapperEnd]
                   else splice endIndex 0 [wrapperEnd] cs1)))"

section \<open>convertToAdmonitions\<close>

definition gfmToAdmonitions :: "(jsstring \<times> jsstring) list" where
  "gfmToAdmonitions = [(js ''Note'', js ''note''), (js ''Warning'', js ''caution'')]"

text \<open>\<open>Map.prototype.get\<close> on a key that may be \<open>undefined\<close>.\<close>

definition mapGet :: "(jsstring \<times> jsstring) list \<Rightarrow> jsstring option \<Rightarrow> jsstring option" where
  "mapGet m k = (case k of None \<Rightarrow> None | Some s \<Rightarrow> map_of m s)"

text \<open>
  The \<open>forEach\<close> over \<open>restChildren\<close>: only the child at position 0 is touched, and
  only when its \<open>value\<close> is a non-empty string.
\<close>

definition trimFirst :: "node list \<Rightarrow> node list" where
  "trimFirst restChildren =
     (case restChildren of
        [] \<Rightarrow> []
      | child # more \<Rightarrow>
          (case nvalue child of
             None \<Rightarrow> child
           | Some v \<Rightarrow>
               if v \<noteq> [] then Node (ntype child) (children child) (Some (trimStart v)) (url child)
               else child) # more)"

text \<open>\<open>const [text] = strong.children; text?.value\<close>.\<close>

definition firstValue :: "node list \<Rightarrow> jsstring option" where
  "firstValue scs = (case scs of [] \<Rightarrow> None | text # _ \<Rightarrow> nvalue text)"

definition textParagraph :: "jsstring \<Rightarrow> node" where
  "textParagraph s =
     Node (js ''paragraph'') (Some [Node (js ''text'') None (Some s) None]) None None"

text \<open>
  The visitor, called by \<open>visit\<close> with a blockquote, its index in the parent's children
  and the parent; the result is the parent's child list afterwards. Destructuring an
  absent child list throws, and so does reading \<open>type\<close> of a missing first element.
\<close>

definition convertToAdmonitions_visitor :: "node \<Rightarrow> nat \<Rightarrow> node list \<Rightarrow> error + node list" where
  "convertToAdmonitions_visitor blockquote index pcs =
     (case children blockquote of
        None \<Rightarrow> Inl TypeError
      | Some [] \<Rightarrow> Inl TypeError
      | Some (paragraph # _) \<Rightarrow>
          if ntype paragraph \<noteq> js ''paragraph'' then Inr pcs
          else
            (case children paragraph of
               None \<Rightarrow> Inl TypeError
             | Some [] \<Rightarrow> Inl TypeError
             | Some (strong # restChildren) \<Rightarrow>
                 if ntype strong \<noteq> js ''strong'' then Inr pcs
                 else
                   (case children strong of
                      None \<Rightarrow> Inl TypeError
                    | Some scs \<Rightarrow>
                        (let gfmType = firstValue scs;
                             admType = mapGet gfmToAdmonitions gfmType
                         in case admType of
                              None \<Rightarrow> Inr pcs
                            | Some adm \<Rightarrow>
                                Inr (splice index 1 []
                                  (splice (index + 1) 0
                                    [textParagraph (js '':::'' @ adm @ js '' '' @ templ gfmType),
                                     Node (js ''paragraph'') (Some (trimFirst restChildren)) None None,
                                     textParagraph (js '':::'')]
                                    pcs))))))"

section \<open>makeRuleSymbolsAccessbile\<close>

text \<open>
  The symbols are U+2705 (white heavy check mark) and U+1F527 (wrench); the second is
  a surrogate pair in UTF-16.
\<close>

definition checkMark :: jsstring where
  "checkMark = [0x2705]"

definition wrench :: jsstring where
  "wrench = [0xD83D, 0xDD27]"

definition symbols :: "(jsstring \<times> jsstring) list" where
  "symbols = [(checkMark, js ''Standard''), (wrench, js ''Autofixable'')]"

text \<open>
  The test handed to \<open>visit\<close>: one \<open>{type: 'text', value}\<close> pattern per symbol; a node
  passes when it agrees with one of the patterns on both attributes.
\<close>

definition symbolTest :: "node \<Rightarrow> bool" where
  "symbolTest node =
     list_ex (\<lambda>valu. ntype node = js ''text'' \<and> nvalue node = Some valu) (map fst symbols)"

text \<open>The visitor assigns \<open>parent.children\<close>; the result is that new child list.\<close>

definition makeRuleSymbolsAccessbile_visitor :: "node \<Rightarrow> node list" where
  \<open>makeRuleSymbolsAccessbile_visitor node =
     (let symbol = nvalue node;
          name = mapGet symbols symbol
      in [htmlNode (js ''<span title="'' @ templ name @ js ''">'' @ templ symbol @ js ''</span>'')])\<close>

text \<open>
  Modelled from the spec: the traversal engine \<open>visit\<close> (package unist-util-visit), for
  this visitor. The engine walks a parent's children by offset and reads the child
  list again after every step. Once a child passes the test the visitor has replaced
  the whole list by a single node, so the next offset is past its end and the walk of
  this parent stops; a child that does not pass is walked in place. \<open>done\<close> holds the
  children already walked.
\<close>

fun visitSymbols :: "node \<Rightarrow> node"
  and visitSymbolsChildren :: "node list \<Rightarrow> node list \<Rightarrow> node list" where
  "visitSymbols (Node t cs v u) =
     Node t (case cs of None \<Rightarrow> None | Some kids \<Rightarrow> Some (visitSymbolsChildren [] kids)) v u"
| "visitSymbolsChildren done [] = done"
| "visitSymbolsChildren done (c # rest) =
     (if symbolTest c then makeRuleSymbolsAccessbile_visitor c
      else visitSymbolsChildren (done @ [visitSymbols c]) rest)"

text \<open>
  The transform. The root has no parent: if the root itself passes the test, the
  visitor's assignment to \<open>parent.children\<close> throws.
\<close>

definition makeRuleSymbolsAccessbile :: "node \<Rightarrow> error + node" where
  "makeRuleSymbolsAccessbile tree =
     (if symbolTest tree then Inl TypeError else Inr (visitSymbols tree))"

section \<open>processMarkdown\<close>

text \<open>
  The regular expression \<open>/\n?# ([^\n]+)\n/\<close>. \<open>titleCore\<close> matches \<open># ([^\n]+)\n\<close> at
  the start of a string and gives the captured group: the greedy run of characters
  other than a newline, which must be non-empty and followed by a newline.
  \<open>titleHere\<close> puts the optional newline in front, and \<open>titleMatch\<close> tries every start
  position from the left, as \<open>String.prototype.match\<close> does.
\<close>

definition titleCore :: "jsstring \<Rightarrow> jsstring option" where
  "titleCore s =
     (if take 2 s = js ''# '' then
        (let run = takeWhile (\<lambda>c. c \<noteq> nl) (drop 2 s);
             rest = dropWhile (\<lambda>c. c \<noteq> nl) (drop 2 s)
         in if run \<noteq> [] \<and> rest \<noteq> [] then Some run else None)
      else None)"

definition titleHere :: "jsstring \<Rightarrow> jsstring option" where
  "titleHere s =
     (case s of
        [] \<Rightarrow> titleCore s
      | c # s' \<Rightarrow>
          if c = nl then (case titleCore s' of Some t \<Rightarrow> Some t | None \<Rightarrow> titleCore s)
          else titleCore s)"

fun titleMatch :: "jsstring \<Rightarrow> jsstring option" where
  "titleMatch [] = titleHere []"
| "titleMatch (c # s) = (case titleHere (c # s) of Some t \<Rightarrow> Some t | None \<Rightarrow> titleMatch s)"

text \<open>
  A value read from the object literal \<open>titleToSidebarLabel\<close>: a string, or a member
  that the literal inherits from \<open>Object.prototype\<close>, kept by its property name.
\<close>

datatype jsvalue = JString jsstring | ObjectPrototypeMember jsstring

definition objectPrototypeKeys :: "jsstring list" where
  "objectPrototypeKeys =
     [js ''constructor'', js ''hasOwnProperty'', js ''isPrototypeOf'',
      js ''propertyIsEnumerable'', js ''toLocaleString'', js ''toString'', js ''valueOf'',
      js ''__defineGetter__'', js ''__defineSetter__'', js ''__lookupGetter__'',
      js ''__lookupSetter__'', js ''__proto__'']"

text \<open>
  The property read \<open>titleToSidebarLabel[title]\<close> on \<open>{ Stylelint: 'Home' }\<close>: the own
  property first, then the prototype chain.
\<close>

definition titleToSidebarLabel :: "jsstring \<Rightarrow> jsvalue option" where
  "titleToSidebarLabel key =
     (if key = js ''Stylelint'' then Some (JString (js ''Home''))
      else if key \<in> set objectPrototypeKeys then Some (ObjectPrototypeMember key)
      else None)"

text \<open>Truthiness: a string unless empty, every function and object; \<open>undefined\<close> is not.\<close>

definition truthy :: "jsvalue option \<Rightarrow> bool" where
  "truthy v =
     (case v of
        None \<Rightarrow> False
      | Some (JString s) \<Rightarrow> s \<noteq> []
      | Some (ObjectPrototypeMember k) \<Rightarrow> True)"

text \<open>\<open>a || b\<close> where \<open>a\<close> may be \<open>undefined\<close>.\<close>

definition orElse :: "jsvalue option \<Rightarrow> jsvalue \<Rightarrow> jsvalue" where
  "orElse a b = (case a of None \<Rightarrow> b | Some v \<Rightarrow> if truthy (Some v) then v else b)"

text \<open>
  A value interpolated into the front matter. The inherited members are built-in
  functions, printed by Node.js as \<open>function name() { [native code] }\<close>, apart from
  \<open>__proto__\<close>, which reads as the prototype object itself.
\<close>

definition toString :: "jsvalue \<Rightarrow> jsstring" where
  "toString v =
     (case v of
        JString s \<Rightarrow> s
      | ObjectPrototypeMember k \<Rightarrow>
          if k = js ''__proto__'' then js ''[object Object]''
          else js ''function '' @ (if k = js ''constructor'' then js ''Object'' else k)
                 @ js ''() { [native code] }'')"

definition frontMatter :: "(jsstring \<times> jsvalue) list \<Rightarrow> jsstring" where
  "frontMatter meta =
     js ''---'' @ [nl] @ concat (map (\<lambda>item. fst item @ js '': '' @ toString (snd item) @ [nl]) meta)
       @ js ''---''"

text \<open>
  \<open>processMarkdown\<close> from the serialised text on: \<open>content\<close> is what the remark
  pipeline (parser, the four passes, serialiser) returned for the file. A failed
  match is \<open>null\<close>, and reading its index 1 throws.
\<close>

definition processMarkdown :: "jsstring \<Rightarrow> error + jsstring" where
  "processMarkdown content =
     (case titleMatch content of
        None \<Rightarrow> Inl TypeError
      | Some matched \<Rightarrow>
          (let sidebarLabel = orElse (titleToSidebarLabel matched) (JString matched);
               home = (matched = js ''Stylelint'');
               title = (if home then sidebarLabel else JString matched);
               slug = (if home then Some (JString (js ''/'')) else None);
               meta = [(js ''title'', title), (js ''sidebar_label'', sidebarLabel)]
                      @ (case slug of
                           None \<Rightarrow> []
                         | Some s \<Rightarrow> if truthy (Some s) then [(js ''slug'', s)] else [])
           in Inr (frontMatter meta @ [nl, nl] @ content)))"

section \<open>Addressing nodes, and the inputs of the examples\<close>

text \<open>The node reached from \<open>n\<close> by a path of child indices, if there is one.\<close>

fun subnode :: "node \<Rightarrow> nat list \<Rightarrow> node option" where
  "subnode n [] = Some n"
| "subnode n (i # p) =
     (case children n of
        None \<Rightarrow> None
      | Some cs \<Rightarrow> if i < length cs then subnode (cs ! i) p else None)"

definition textNode :: "jsstring \<Rightarrow> node" where
  "textNode s = Node (js ''text'') None (Some s) None"

definition parent :: "string \<Rightarrow> node list \<Rightarrow> node" where
  "parent t cs = Node (js t) (Some cs) None None"

text \<open>An idempotent rewriter: a leading \<open>docs/\<close> becomes \<open>/\<close>; \<open>undefined\<close> stays.\<close>

definition stripDocs :: "jsstring option \<Rightarrow> jsstring option" where
  "stripDocs u =
     (case u of
        None \<Rightarrow> None
      | Some s \<Rightarrow> Some (if take 5 s = js ''docs/'' then js ''/'' @ drop 5 s else s))"

definition linkDoc :: node where
  "linkDoc =
     parent ''root''
       [parent ''paragraph''
          [Node (js ''link'') (Some [textNode (js ''a'')]) None (Some (js ''docs/a.md''))]]"


text \<open>An empty blockquote, as the parser gives it for a line that holds only \<open>>\<close>.\<close>

definition emptyQuote :: node where
  "emptyQuote = parent ''blockquote'' []"

text \<open>
  Trigger paragraphs: the sentence with an emphasised \<open>not\<close>, the plain sentence, the
  sentence with \<open>not\<close> as inline code, and the singular sentence around an image.
\<close>

definition notTrigger :: node where
  "notTrigger =
     parent ''paragraph''
       [textNode (js ''The following patterns are ''),
        parent ''emphasis'' [textNode (js ''not'')],
        textNode (js '' considered problems:'')]"

definition plainTrigger :: node where
  "plainTrigger =
     parent ''paragraph'' [textNode (js ''The following patterns are considered problems:'')]"

definition codeTrigger :: node where
  "codeTrigger =
     parent ''paragraph''
       [textNode (js ''The following patterns are ''),
        Node (js ''inlineCode'') None (Some (js ''not'')) None,
        textNode (js '' considered problems:'')]"

definition imageTrigger :: node where
  "imageTrigger =
     parent ''paragraph''
       [textNode (js ''The following pattern is ''),
        Node (js ''image'') None None (Some (js ''no.png'')),
        textNode (js '' considered a problem:'')]"

text \<open>
  Two paragraphs with five children: the sentence, a hard line break and more text;
  and the sentence with a second inline run, \<open>**ever**\<close>, inside it.
\<close>

definition trailingTrigger :: node where
  "trailingTrigger =
     parent ''paragraph''
       [textNode (js ''The following patterns are ''),
        parent ''emphasis'' [textNode (js ''not'')],
        textNode (js '' considered problems:''),
        Node (js ''break'') None None None,
        textNode (js ''See below.'')]"

definition everTrigger :: node where
  "everTrigger =
     parent ''paragraph''
       [textNode (js ''The following patterns are ''),
        parent ''emphasis'' [textNode (js ''not'')],
        textNode (js '' ''),
        parent ''strong'' [textNode (js ''ever'')],
        textNode (js '' considered problems:'')]"

text \<open>Siblings of a trigger: a fenced code block, a paragraph with an emphasised \<open>not\<close>, a heading.\<close>

definition codeBlock :: node where
  "codeBlock = Node (js ''code'') None (Some (js ''a {}'')) None"

definition notParagraph :: node where
  "notParagraph =
     parent ''paragraph''
       [textNode (js ''Do ''), parent ''emphasis'' [textNode (js ''not'')],
        textNode (js '' use it.'')]"

definition optionsHeading :: node where
  "optionsHeading = parent ''heading'' [textNode (js ''Options'')]"

text \<open>
  The classification as the specification words it: from the second child of the
  paragraph that follows the trigger at \<open>index\<close> among the siblings \<open>pcs\<close>, valid when
  that child's first nested value is \<open>not\<close>.
\<close>

definition claimedIsValid :: "node list \<Rightarrow> nat \<Rightarrow> bool" where
  "claimedIsValid pcs index =
     (case at pcs (index + 1) of
        None \<Rightarrow> False
      | Some following \<Rightarrow>
          ntype following = js ''paragraph'' \<and>
          (case children following of
             None \<Rightarrow> False
           | Some cs \<Rightarrow>
               (case at cs 1 of
                  None \<Rightarrow> False
                | Some second \<Rightarrow>
                    (case children second of
                       None \<Rightarrow> False
                     | Some gs \<Rightarrow>
                         (case at gs 0 of
                            None \<Rightarrow> False
                          | Some g \<Rightarrow> nvalue g = Some (js ''not''))))))"

text \<open>
  The trigger test as the specification words it: the values of the first and the
  last child, the first without its trailing white space, joined. A paragraph with a
  single child has no last child apart from the first.
\<close>

definition claimedIsTrigger :: "node \<Rightarrow> bool" where
  "claimedIsTrigger node =
     (ntype node = js ''paragraph'' \<and>
      (case children node of
         None \<Rightarrow> False
       | Some cs \<Rightarrow>
           trimEnd (valueOrEmpty (at cs 0))
             @ valueOrEmpty (if 1 < length cs then at cs (length cs - 1) else None)
           \<in> set triggerSentences))"

text \<open>Whether a node of the tree passes the symbol test.\<close>

fun containsSymbol :: "node \<Rightarrow> bool" where
  "containsSymbol (Node t cs v u) =
     (symbolTest (Node t cs v u)
      \<or> (case cs of None \<Rightarrow> False | Some kids \<Rightarrow> list_ex containsSymbol kids))"

text \<open>
  Documents for the symbol pass: a check mark with inline code beside it, a table
  cell that holds only the wrench, and a check mark inside a longer text.
\<close>

definition inlineCode :: "jsstring \<Rightarrow> node" where
  "inlineCode s = Node (js ''inlineCode'') None (Some s) None"

definition symbolWithSibling :: node where
  "symbolWithSibling =
     parent ''root'' [parent ''paragraph'' [textNode checkMark, inlineCode (js ''x'')]]"

definition symbolCell :: node where
  "symbolCell = parent ''root'' [parent ''tableCell'' [textNode wrench]]"

definition symbolInText :: node where
  "symbolInText = parent ''root'' [parent ''paragraph'' [textNode (checkMark @ js '' rule'')]]"

text \<open>The lines of a text, split at the newlines.\<close>

fun linesOf :: "jsstring \<Rightarrow> jsstring list" where
  "linesOf [] = [[]]"
| "linesOf (c # s) =
     (if c = nl then [] # linesOf s
      else (case linesOf s of [] \<Rightarrow> [[c]] | l # ls \<Rightarrow> (c # l) # ls))"

text \<open>
  The title as the specification words it: the text of the first top-level heading
  of the serialised output, a line that starts with \<open>#\<close> and a space; none when the
  output has no such line.
\<close>

definition claimedTitle :: "jsstring \<Rightarrow> jsstring option" where
  "claimedTitle content =
     (case filter (\<lambda>l. take 2 l = js ''# '') (linesOf content) of
        [] \<Rightarrow> None
      | l # _ \<Rightarrow> Some (drop 2 l))"

text \<open>Serialised documents: a second-level heading only, and one before the top-level heading.\<close>

definition onlyH2 :: jsstring where
  "onlyH2 = js ''## Foo'' @ [nl]"

definition h2BeforeH1 :: jsstring where
  "h2BeforeH1 = js ''## Intro'' @ [nl, nl] @ js ''# Real'' @ [nl]"

text \<open>The first match of \<open># ([^\n]+)\n\<close> from the left, without the optional newline.\<close>

fun firstCore :: "jsstring \<Rightarrow> jsstring option" where
  "firstCore [] = None"
| "firstCore (c # s) = (case titleCore (c # s) of Some t \<Rightarrow> Some t | None \<Rightarrow> firstCore s)"




section \<open>Properties of rewriteLink\<close>

lemma rewriteLink_Node [simp]:
  "rewriteLink r (Node t cs v u) =
     Node t (map_option (map (rewriteLink r)) cs) v (if t = js ''link'' then r u else u)"
proof -
  have walk: "visit [js ''link''] (rewriteLink_visitor r) = rewriteLink r"
    by (rule ext) (simp only: rewriteLink_def)
  have "rewriteLink r (Node t cs v u) = visit [js ''link''] (rewriteLink_visitor r) (Node t cs v u)"
    by (simp only: rewriteLink_def)
  also have "\<dots> =
      Node t (map_option (map (visit [js ''link''] (rewriteLink_visitor r))) cs) v
        (if t = js ''link'' then r u else u)"
    by (simp add: rewriteLink_visitor_def Let_def)
  finally show ?thesis
    by (simp only: walk)
qed

lemma subnode_rewriteLink:
  "subnode (rewriteLink r t) p = map_option (rewriteLink r) (subnode t p)"
proof (induction p arbitrary: t)
  case Nil
  show ?case by simp
next
  case (Cons i p)
  show ?case by (cases t) (auto simp: Cons.IH split: option.splits)
qed

lemma rewriteLink_idem:
  assumes "\<And>u. r (r u) = r u"
  shows "rewriteLink r (rewriteLink r t) = rewriteLink r t"
proof (induction t)
  case (Node t cs v u)
  show ?case using Node assms
    by (cases cs) (auto simp: option.map_comp comp_def)
qed

lemma stripDocs_idem: "stripDocs (stripDocs u) = stripDocs u"
  by (cases u) (auto simp: stripDocs_def js_def)

text \<open>
  C8. Every node of the tree keeps its place, its type, its value and the number of
  its children under the link-rewriting pass; its url becomes the rewriter applied to
  the old url when the node is a link, and stays as it was otherwise. No node appears
  or disappears. When the rewriter is idempotent, running the pass twice gives the
  same tree as running it once.
\<close>

theorem rewriteLink_rewrites_link_urls_only:
  "(case subnode tree p of
      None \<Rightarrow> subnode (rewriteLink rewriter tree) p = None
    | Some L \<Rightarrow>
        (\<exists>L'. subnode (rewriteLink rewriter tree) p = Some L'
           \<and> ntype L' = ntype L \<and> nvalue L' = nvalue L
           \<and> map_option length (children L') = map_option length (children L)
           \<and> url L' = (if ntype L = js ''link'' then rewriter (url L) else url L)))
   \<and> ((\<forall>u. rewriter (rewriter u) = rewriter u)
        \<longrightarrow> rewriteLink rewriter (rewriteLink rewriter tree) = rewriteLink rewriter tree)"
proof (intro conjI impI)
  show "case subnode tree p of
      None \<Rightarrow> subnode (rewriteLink rewriter tree) p = None
    | Some L \<Rightarrow>
        (\<exists>L'. subnode (rewriteLink rewriter tree) p = Some L'
           \<and> ntype L' = ntype L \<and> nvalue L' = nvalue L
           \<and> map_option length (children L') = map_option length (children L)
           \<and> url L' = (if ntype L = js ''link'' then rewriter (url L) else url L))"
  proof (cases "subnode tree p")
    case None
    then show ?thesis by (simp add: subnode_rewriteLink)
  next
    case (Some L)
    then show ?thesis
      by (cases L) (simp add: subnode_rewriteLink option.map_comp comp_def)
  qed
next
  assume "\<forall>u. rewriter (rewriter u) = rewriter u"
  then show "rewriteLink rewriter (rewriteLink rewriter tree) = rewriteLink rewriter tree"
    by (simp add: rewriteLink_idem)
qed

theorem rewriteLink_rewrites_link_urls_only_witness:
  "(\<exists>L'. subnode (rewriteLink stripDocs linkDoc) [0, 0] = Some L'
      \<and> ntype L' = js ''link'' \<and> nvalue L' = None
      \<and> map_option length (children L') = Some 1
      \<and> url L' = Some (js ''/a.md''))
   \<and> rewriteLink stripDocs (rewriteLink stripDocs linkDoc) = rewriteLink stripDocs linkDoc"
  using rewriteLink_rewrites_link_urls_only [where tree = linkDoc and p = "[0, 0]" and rewriter = stripDocs] stripDocs_idem
  by (simp add: linkDoc_def parent_def textNode_def stripDocs_def js_def)

section \<open>Properties of convertToAdmonitions\<close>



lemma mapGet_gfmToAdmonitions_None:
  "mapGet gfmToAdmonitions k = None \<longleftrightarrow> k \<noteq> Some (js ''Note'') \<and> k \<noteq> Some (js ''Warning'')"
  by (cases k) (auto simp: mapGet_def gfmToAdmonitions_def)




text \<open>
  The blockquotes that the visitor passes through: the first child is not a paragraph,
  or the paragraph's first child is not a strong run, or the strong run does not start
  with the text \<open>Note\<close> or \<open>Warning\<close>. Each of these needs the child lists read on the
  way to be non-empty.
\<close>

lemma convertToAdmonitions_visitor_pass_through:
  assumes "children blockquote = Some (para # others)"
    and "ntype para \<noteq> js ''paragraph''
         \<or> (\<exists>strong restChildren. children para = Some (strong # restChildren)
              \<and> (ntype strong \<noteq> js ''strong''
                  \<or> (\<exists>scs. children strong = Some scs
                       \<and> firstValue scs \<noteq> Some (js ''Note'')
                       \<and> firstValue scs \<noteq> Some (js ''Warning''))))"
  shows "convertToAdmonitions_visitor blockquote index pcs = Inr pcs"
  using assms
  by (elim disjE exE conjE)
     (simp_all add: convertToAdmonitions_visitor_def mapGet_gfmToAdmonitions_None [THEN iffD2])

text \<open>
  C5. The claim fails on a blockquote with an empty child list: the blockquote does
  not have the admonition shape, and the visitor throws instead of leaving the tree
  as it is. The same happens on a blockquote whose first paragraph has an empty child
  list.
\<close>

theorem convertToAdmonitions_visitor_empty_blockquote_throws:
  "convertToAdmonitions_visitor emptyQuote 0 [emptyQuote] = Inl TypeError
   \<and> convertToAdmonitions_visitor (parent ''blockquote'' [parent ''paragraph'' []]) 0
         [parent ''blockquote'' [parent ''paragraph'' []]] = Inl TypeError"
  by (simp add: convertToAdmonitions_visitor_def emptyQuote_def parent_def)

section \<open>Properties of wrapProblemExample\<close>

lemmas example_defs = notTrigger_def plainTrigger_def codeBlock_def notParagraph_def
  codeTrigger_def imageTrigger_def optionsHeading_def trailingTrigger_def everTrigger_def
  parent_def textNode_def

lemmas trigger_defs = isTrigger_def at_def valueOrEmpty_def triggerSentences_def trimEnd_def
  js_def isWhiteSpace_def

subsection \<open>The loop and the two insertions\<close>

lemma findEnd_takeWhile:
  "i \<le> length cs \<Longrightarrow>
     findEnd cs (length cs) i =
       i + length (takeWhile (\<lambda>c. \<not> (isTrigger c \<or> ntype c = js ''heading'')) (drop i cs))"
proof (induction cs "length cs" i rule: findEnd.induct)
  case (1 cs i)
  show ?case
  proof (cases "i < length cs")
    case True
    then have d: "drop i cs = cs ! i # drop (Suc i) cs"
      by (simp add: Cons_nth_drop_Suc)
    show ?thesis
    proof (cases "isTrigger (cs ! i) \<or> ntype (cs ! i) = js ''heading''")
      case b: True
      then show ?thesis using True d by (subst findEnd.simps) auto
    next
      case b: False
      have "findEnd cs (length cs) (i + 1) =
              (i + 1) + length (takeWhile (\<lambda>c. \<not> (isTrigger c \<or> ntype c = js ''heading''))
                                  (drop (i + 1) cs))"
        using "1.hyps" [OF True refl] b True by simp
      then show ?thesis using True d b by (subst findEnd.simps) auto
    qed
  next
    case False
    then show ?thesis using "1.prems" by (subst findEnd.simps) simp
  qed
qed

lemma wrapperStart_not_boundary:
  "\<not> (isTrigger (wrapperStart v) \<or> ntype (wrapperStart v) = js ''heading'')"
  by (simp add: wrapperStart_def htmlNode_def isTrigger_def js_def Let_def)

lemma splice_insert_after:
  "splice (Suc (length pre)) 0 [s] (pre @ n # post) = pre @ n # s # post"
  by (simp add: splice_def)

lemma insert_end:
  fixes post :: "node list" and nb :: "node \<Rightarrow> bool"
  defines "k \<equiv> length (takeWhile nb post)"
  shows "(if Suc (Suc (length pre + k)) = length (pre @ n # s # post)
          then (pre @ n # s # post) @ [w]
          else splice (Suc (Suc (length pre + k))) 0 [w] (pre @ n # s # post)) =
         pre @ n # s # takeWhile nb post @ w # dropWhile nb post"
proof -
  have t: "takeWhile nb post = take k post"
    unfolding k_def by (rule takeWhile_eq_take)
  have d: "dropWhile nb post = drop k post"
    unfolding k_def by (rule dropWhile_eq_drop)
  have k: "k \<le> length post"
    unfolding k_def by (rule length_takeWhile_le)
  show ?thesis
  proof (cases "k = length post")
    case True
    then show ?thesis by (simp add: t d)
  next
    case False
    have "take (Suc (Suc (length pre + k))) (pre @ n # s # post) = pre @ n # s # take k post"
      by simp
    moreover have "drop (Suc (Suc (length pre + k))) (pre @ n # s # post) = drop k post"
      by simp
    ultimately show ?thesis using False by (simp add: splice_def t d)
  qed
qed

text \<open>
  Where the visitor does not throw: the opening marker comes right after the trigger,
  the closing marker right before the first later sibling that is a trigger or a
  heading, or at the end when there is none. Two nodes are added and nothing else
  changes.
\<close>

lemma wrapProblemExample_visitor_markers:
  assumes "isValid node = Inr v"
  shows "wrapProblemExample_visitor node (length pre) (pre @ node # post) =
           Inr (pre @ node # wrapperStart v
                  # takeWhile (\<lambda>c. \<not> (isTrigger c \<or> ntype c = js ''heading'')) post
                  @ wrapperEnd
                  # dropWhile (\<lambda>c. \<not> (isTrigger c \<or> ntype c = js ''heading'')) post)"
proof -
  let ?nb = "\<lambda>c. \<not> (isTrigger c \<or> ntype c = js ''heading'')"
  let ?cs1 = "pre @ node # wrapperStart v # post"
  have "findEnd ?cs1 (length ?cs1) (Suc (length pre)) =
          Suc (length pre) + length (takeWhile ?nb (drop (Suc (length pre)) ?cs1))"
    by (rule findEnd_takeWhile) simp
  also have "drop (Suc (length pre)) ?cs1 = wrapperStart v # post"
    by simp
  also have "takeWhile ?nb (wrapperStart v # post) = wrapperStart v # takeWhile ?nb post"
    using wrapperStart_not_boundary [of v] by simp
  finally have e: "findEnd ?cs1 (length ?cs1) (Suc (length pre)) =
      Suc (Suc (length pre + length (takeWhile ?nb post)))"
    by simp
  show ?thesis
    unfolding wrapProblemExample_visitor_def assms sum.case Let_def
    by (simp only: Suc_eq_plus1 [symmetric] splice_insert_after e insert_end)
qed

subsection \<open>When the class can be read\<close>

lemma isValid_Inr:
  assumes "children node = Some cs" and "1 < length cs \<longrightarrow> children (cs ! 1) \<noteq> None"
  shows "isValid node =
           Inr (1 < length cs
                \<and> (\<exists>g more. children (cs ! 1) = Some (g # more) \<and> nvalue g = Some (js ''not'')))"
proof (cases "1 < length cs")
  case False
  then show ?thesis using assms(1) by (simp add: isValid_def at_def)
next
  case True
  then obtain gs where gs: "children (cs ! 1) = Some gs" using assms(2) by auto
  show ?thesis using assms(1) True gs
    by (cases gs) (simp_all add: isValid_def at_def)
qed

lemma isValid_Inl:
  "isValid node = Inl e \<longleftrightarrow>
     children node = None
     \<or> (\<exists>cs. children node = Some cs \<and> 1 < length cs \<and> children (cs ! 1) = None)"
  by (cases e) (auto simp: isValid_def at_def split: option.splits)

lemma wrapProblemExample_visitor_throws:
  "wrapProblemExample_visitor node index pcs = Inl e \<longleftrightarrow> isValid node = Inl e"
  by (cases "isValid node") (simp_all add: wrapProblemExample_visitor_def Let_def)

subsection \<open>The examples\<close>

lemma isTrigger_examples:
  "isTrigger notTrigger" "isTrigger plainTrigger" "isTrigger codeTrigger"
  "isTrigger imageTrigger" "isTrigger trailingTrigger" "\<not> isTrigger everTrigger"
  by (simp_all add: trigger_defs example_defs)

lemma claimedIsTrigger_examples:
  "\<not> claimedIsTrigger trailingTrigger" "claimedIsTrigger everTrigger"
  "claimedIsTrigger codeTrigger" "claimedIsTrigger imageTrigger"
  by (simp_all add: claimedIsTrigger_def trigger_defs example_defs)

lemma isValid_examples:
  "isValid notTrigger = Inr True" "isValid plainTrigger = Inr False"
  "isValid codeTrigger = Inl TypeError" "isValid imageTrigger = Inl TypeError"
  by (simp_all add: isValid_def example_defs at_def js_def)

lemma claimedIsValid_examples:
  "\<not> claimedIsValid [notTrigger, codeBlock] 0" "claimedIsValid [plainTrigger, notParagraph] 0"
  by (simp_all add: claimedIsValid_def example_defs at_def js_def)

lemma not_boundary_examples:
  "\<not> (isTrigger codeBlock \<or> ntype codeBlock = js ''heading'')"
  "\<not> (isTrigger notParagraph \<or> ntype notParagraph = js ''heading'')"
  by (simp_all add: trigger_defs example_defs)

subsection \<open>The claims\<close>

text \<open>
  C1, as the code has it. For a trigger paragraph whose second child, if it has one,
  has a child list, the class of the wrapper is read from the trigger paragraph
  itself: the node put right after the trigger is an html node whose value is the
  opening \<open>div\<close> tag with class \<open>valid-pattern\<close> when the first nested value of the
  trigger's own second child is \<open>not\<close>, and with class \<open>invalid-pattern\<close> otherwise.
  The paragraph that follows the trigger plays no part.
\<close>

theorem wrapProblemExample_visitor_class_from_trigger:
  assumes "isTrigger node" and "children node = Some cs"
    and "1 < length cs \<longrightarrow> children (cs ! 1) \<noteq> None"
  shows \<open>wrapProblemExample_visitor node (length pre) (pre @ node # post) =
           Inr (pre @ node
                  # Node (js ''html'') None
                      (Some (js ''<div class="''
                         @ (if 1 < length cs
                               \<and> (\<exists>g more. children (cs ! 1) = Some (g # more)
                                       \<and> nvalue g = Some (js ''not''))
                            then js ''valid-pattern'' else js ''invalid-pattern'')
                         @ js ''">'')) None
                  # takeWhile (\<lambda>c. \<not> (isTrigger c \<or> ntype c = js ''heading'')) post
                  @ Node (js ''html'') None (Some (js ''</div>'')) None
                  # dropWhile (\<lambda>c. \<not> (isTrigger c \<or> ntype c = js ''heading'')) post)\<close>
  using wrapProblemExample_visitor_markers [OF isValid_Inr [OF assms(2,3)], of pre post]
  by (simp add: wrapperStart_def wrapperEnd_def htmlNode_def)

theorem wrapProblemExample_visitor_class_from_trigger_witness:
  \<open>wrapProblemExample_visitor notTrigger 1 [optionsHeading, notTrigger, codeBlock, plainTrigger] =
     Inr [optionsHeading, notTrigger,
          Node (js ''html'') None (Some (js ''<div class="valid-pattern">'')) None,
          codeBlock,
          Node (js ''html'') None (Some (js ''</div>'')) None,
          plainTrigger]\<close>
  using wrapProblemExample_visitor_class_from_trigger [where node = notTrigger
      and cs = "[textNode (js ''The following patterns are ''),
                 parent ''emphasis'' [textNode (js ''not'')],
                 textNode (js '' considered problems:'')]"
      and pre = "[optionsHeading]" and post = "[codeBlock, plainTrigger]"]
    isTrigger_examples not_boundary_examples
  by (simp add: notTrigger_def parent_def textNode_def js_def)

text \<open>
  C1 as stated fails in both directions. A trigger with an emphasised \<open>not\<close> followed
  by a code block gets the class \<open>valid-pattern\<close>, where the claim reads no \<open>not\<close> from
  what follows; the plain trigger followed by a paragraph with an emphasised \<open>not\<close>
  gets \<open>invalid-pattern\<close>, where the claim reads a \<open>not\<close>.
\<close>

theorem wrapProblemExample_class_counterexample:
  \<open>isTrigger notTrigger
   \<and> wrapProblemExample_visitor notTrigger 0 [notTrigger, codeBlock] =
       Inr [notTrigger,
            Node (js ''html'') None (Some (js ''<div class="valid-pattern">'')) None,
            codeBlock,
            Node (js ''html'') None (Some (js ''</div>'')) None]
   \<and> \<not> claimedIsValid [notTrigger, codeBlock] 0
   \<and> isTrigger plainTrigger
   \<and> wrapProblemExample_visitor plainTrigger 0 [plainTrigger, notParagraph] =
       Inr [plainTrigger,
            Node (js ''html'') None (Some (js ''<div class="invalid-pattern">'')) None,
            notParagraph,
            Node (js ''html'') None (Some (js ''</div>'')) None]
   \<and> claimedIsValid [plainTrigger, notParagraph] 0\<close>
  using wrapProblemExample_visitor_markers [OF isValid_examples(1), of "[]" "[codeBlock]"]
    wrapProblemExample_visitor_markers [OF isValid_examples(2), of "[]" "[notParagraph]"]
    not_boundary_examples isTrigger_examples claimedIsValid_examples
  by (simp add: wrapperStart_def wrapperEnd_def htmlNode_def js_def)

text \<open>
  C6. The claim fails on a trigger whose second child has no child list, here the
  sentence with \<open>not\<close> written as inline code and a heading right after it: the
  visitor throws while it reads the class, before it inserts any marker.
\<close>

theorem wrapProblemExample_visitor_throws_before_inserting:
  "isTrigger codeTrigger \<and> claimedIsTrigger codeTrigger
   \<and> wrapProblemExample_visitor codeTrigger 0 [codeTrigger, optionsHeading] = Inl TypeError"
  using isTrigger_examples claimedIsTrigger_examples
  by (simp add: wrapProblemExample_visitor_def isValid_examples)



text \<open>
  C10. The invariant fails on a trigger whose second child has no child list, here
  the singular sentence around an image: the visitor throws and the parent's child
  list gets no marker at all.
\<close>

theorem wrapProblemExample_visitor_throws_no_markers:
  "isTrigger imageTrigger \<and> claimedIsTrigger imageTrigger
   \<and> wrapProblemExample_visitor imageTrigger 1 [optionsHeading, imageTrigger, codeBlock] =
       Inl TypeError"
  using isTrigger_examples claimedIsTrigger_examples
  by (simp add: wrapProblemExample_visitor_def isValid_examples)

section \<open>Properties of makeRuleSymbolsAccessbile\<close>

lemma symbolTest_iff:
  "symbolTest n \<longleftrightarrow> ntype n = js ''text'' \<and> (nvalue n = Some checkMark \<or> nvalue n = Some wrench)"
  by (auto simp: symbolTest_def symbols_def)

lemma visitSymbolsChildren_find:
  "visitSymbolsChildren done kids =
     (case find symbolTest kids of
        Some c \<Rightarrow> makeRuleSymbolsAccessbile_visitor c
      | None \<Rightarrow> done @ map visitSymbols kids)"
  by (induction kids arbitrary: "done") (auto split: option.splits)

lemma visitSymbols_children:
  "visitSymbols (Node t (Some kids) v u) =
     Node t (Some (case find symbolTest kids of
                     Some c \<Rightarrow> makeRuleSymbolsAccessbile_visitor c
                   | None \<Rightarrow> map visitSymbols kids)) v u"
  by (simp add: visitSymbolsChildren_find split: option.splits)

lemma visitSymbols_unchanged:
  "\<not> containsSymbol tree \<Longrightarrow> visitSymbols tree = tree"
proof (induction tree)
  case (Node t cs v u)
  show ?case
  proof (cases cs)
    case None
    then show ?thesis by simp
  next
    case (Some kids)
    have no: "\<forall>c \<in> set kids. \<not> containsSymbol c"
      using Node.prems Some by (simp add: list_ex_iff)
    then have "\<forall>c \<in> set kids. \<not> symbolTest c"
      by (metis containsSymbol.elims(3))
    then have f: "find symbolTest kids = None" by (simp add: find_None_iff)
    have "map visitSymbols kids = kids"
      using Node.IH Some no by (simp add: map_idI)
    then show ?thesis using Some f by (simp add: visitSymbols_children del: visitSymbols.simps)
  qed
qed

lemma visitor_checkMark:
  \<open>makeRuleSymbolsAccessbile_visitor (Node t cs (Some checkMark) u) =
     [htmlNode (js ''<span title="Standard">'' @ checkMark @ js ''</span>'')]\<close>
  by (simp add: makeRuleSymbolsAccessbile_visitor_def mapGet_def symbols_def templ_def js_def)

lemma visitor_wrench:
  \<open>makeRuleSymbolsAccessbile_visitor (Node t cs (Some wrench) u) =
     [htmlNode (js ''<span title="Autofixable">'' @ wrench @ js ''</span>'')]\<close>
  by (simp add: makeRuleSymbolsAccessbile_visitor_def mapGet_def symbols_def templ_def js_def
      checkMark_def wrench_def)

text \<open>
  What the pass does to the children of one parent, and to a tree in which no node
  passes the test.
\<close>

lemma makeRuleSymbolsAccessbile_unchanged:
  assumes "\<not> containsSymbol tree"
  shows "makeRuleSymbolsAccessbile tree = Inr tree"
proof -
  have "\<not> symbolTest tree" using assms by (cases tree) simp
  then show ?thesis
    using assms by (simp add: makeRuleSymbolsAccessbile_def visitSymbols_unchanged)
qed

subsection \<open>The examples\<close>

lemmas symbol_defs = symbolWithSibling_def symbolCell_def symbolInText_def inlineCode_def
  parent_def textNode_def checkMark_def wrench_def

lemma symbolTest_examples:
  "symbolTest (textNode checkMark)" "symbolTest (textNode wrench)"
  "\<not> symbolTest (textNode (checkMark @ js '' rule''))" "\<not> symbolTest (inlineCode (js ''x''))"
  by (simp_all add: symbolTest_iff textNode_def inlineCode_def js_def checkMark_def wrench_def)

text \<open>
  Where the claim holds: a table cell that holds only the wrench gets the markup node
  in its place, and a check mark inside a longer text is left as it is.
\<close>

lemma makeRuleSymbolsAccessbile_examples:
  \<open>makeRuleSymbolsAccessbile symbolCell =
     Inr (Node (js ''root'')
            (Some [Node (js ''tableCell'')
                     (Some [Node (js ''html'') None
                              (Some (js ''<span title="Autofixable">'' @ [0xD83D, 0xDD27]
                                       @ js ''</span>'')) None])
                     None None])
            None None)\<close>
  "makeRuleSymbolsAccessbile symbolInText = Inr symbolInText"
proof -
  have r: "\<not> symbolTest (parent ''root'' [parent ''tableCell'' [textNode wrench]])"
    "\<not> symbolTest (parent ''tableCell'' [textNode wrench])"
    by (simp_all add: symbolTest_iff parent_def js_def)
  have v: \<open>makeRuleSymbolsAccessbile_visitor (Node (js ''text'') None (Some [0xD83D, 0xDD27]) None) =
      [Node (js ''html'') None
         (Some (js ''<span title="Autofixable">'' @ [0xD83D, 0xDD27] @ js ''</span>'')) None]\<close>
    using visitor_wrench [of "js ''text''" None None]
    by (simp add: wrench_def htmlNode_def)
  show \<open>makeRuleSymbolsAccessbile symbolCell =
     Inr (Node (js ''root'')
            (Some [Node (js ''tableCell'')
                     (Some [Node (js ''html'') None
                              (Some (js ''<span title="Autofixable">'' @ [0xD83D, 0xDD27]
                                       @ js ''</span>'')) None])
                     None None])
            None None)\<close>
    using r symbolTest_examples v
    by (simp add: makeRuleSymbolsAccessbile_def symbolCell_def parent_def visitSymbols_children
        textNode_def wrench_def del: visitSymbols.simps)
  have "\<not> containsSymbol symbolInText"
    by (simp add: symbol_defs symbolTest_iff js_def)
  then show "makeRuleSymbolsAccessbile symbolInText = Inr symbolInText"
    by (rule makeRuleSymbolsAccessbile_unchanged)
qed

text \<open>
  C2. The claim fails on a matched text node that has siblings. A check mark with
  inline code beside it in one paragraph: the paragraph is left with the markup node
  alone, and the inline code is gone. A check mark, inline code and a wrench in one
  paragraph: the paragraph is left with the markup node of the check mark alone; the
  inline code is gone, and so is the wrench, which never becomes a markup node.
\<close>

theorem makeRuleSymbolsAccessbile_drops_siblings:
  \<open>makeRuleSymbolsAccessbile
       (Node (js ''root'')
          (Some [Node (js ''paragraph'')
                   (Some [Node (js ''text'') None (Some [0x2705]) None,
                          Node (js ''inlineCode'') None (Some (js ''x'')) None])
                   None None])
          None None) =
     Inr (Node (js ''root'')
            (Some [Node (js ''paragraph'')
                     (Some [Node (js ''html'') None
                              (Some (js ''<span title="Standard">'' @ [0x2705] @ js ''</span>''))
                              None])
                     None None])
            None None)
   \<and> makeRuleSymbolsAccessbile
       (Node (js ''root'')
          (Some [Node (js ''paragraph'')
                   (Some [Node (js ''text'') None (Some [0x2705]) None,
                          Node (js ''inlineCode'') None (Some (js ''x'')) None,
                          Node (js ''text'') None (Some [0xD83D, 0xDD27]) None])
                   None None])
          None None) =
     Inr (Node (js ''root'')
            (Some [Node (js ''paragraph'')
                     (Some [Node (js ''html'') None
                              (Some (js ''<span title="Standard">'' @ [0x2705] @ js ''</span>''))
                              None])
                     None None])
            None None)\<close>
proof -
  have t: "symbolTest (Node (js ''text'') None (Some [0x2705]) None)"
    by (simp add: symbolTest_iff checkMark_def)
  have n: "\<not> symbolTest (Node (js ''root'') cs None None)"
    "\<not> symbolTest (Node (js ''paragraph'') cs None None)" for cs
    by (simp_all add: symbolTest_iff js_def)
  have v: \<open>makeRuleSymbolsAccessbile_visitor (Node (js ''text'') None (Some [0x2705]) None) =
      [Node (js ''html'') None
         (Some (js ''<span title="Standard">'' @ [0x2705] @ js ''</span>'')) None]\<close>
    using visitor_checkMark [of "js ''text''" None None]
    by (simp add: checkMark_def htmlNode_def)
  show ?thesis
    using t n v
    by (simp add: makeRuleSymbolsAccessbile_def visitSymbols_children del: visitSymbols.simps)
qed

section \<open>Properties of processMarkdown\<close>

subsection \<open>The regular expression\<close>

lemma titleCore_iff:
  "titleCore s = Some t \<longleftrightarrow> (\<exists>post. s = js ''# '' @ t @ nl # post \<and> t \<noteq> [] \<and> nl \<notin> set t)"
proof
  assume a: "titleCore s = Some t"
  then have p: "take 2 s = js ''# ''"
    and t: "t = takeWhile (\<lambda>c. c \<noteq> nl) (drop 2 s)"
    and ne: "t \<noteq> []" and r: "dropWhile (\<lambda>c. c \<noteq> nl) (drop 2 s) \<noteq> []"
    by (auto simp: titleCore_def Let_def split: if_splits)
  from r obtain post where post: "dropWhile (\<lambda>c. c \<noteq> nl) (drop 2 s) = nl # post"
    by (metis (mono_tags, lifting) hd_dropWhile list.exhaust_sel)
  have "s = take 2 s @ drop 2 s" by simp
  also have "drop 2 s = t @ nl # post"
    using t post by (metis takeWhile_dropWhile_id)
  finally have "s = js ''# '' @ t @ nl # post" using p by simp
  moreover have "nl \<notin> set t" using t by (metis (mono_tags, lifting) set_takeWhileD)
  ultimately show "\<exists>post. s = js ''# '' @ t @ nl # post \<and> t \<noteq> [] \<and> nl \<notin> set t"
    using ne by blast
next
  assume "\<exists>post. s = js ''# '' @ t @ nl # post \<and> t \<noteq> [] \<and> nl \<notin> set t"
  then obtain post where s: "s = js ''# '' @ t @ nl # post" and ne: "t \<noteq> []" and n: "nl \<notin> set t"
    by blast
  have l: "length (js ''# '') = 2" by (simp add: js_def)
  have d: "drop 2 s = t @ nl # post" using s l by simp
  have tk: "take 2 s = js ''# ''" using s l by simp
  have tw: "takeWhile (\<lambda>c. c \<noteq> nl) (t @ nl # post) = t"
    using n by (induction t) auto
  have dw: "dropWhile (\<lambda>c. c \<noteq> nl) (t @ nl # post) = nl # post"
    using n by (induction t) auto
  show "titleCore s = Some t"
    using ne by (simp add: titleCore_def tk d tw dw)
qed

lemma titleCore_nl: "titleCore (nl # s) = None"
  by (simp add: titleCore_def js_def nl_def)

lemma titleCore_Nil: "titleCore [] = None"
  by (simp add: titleCore_def js_def)

lemma titleMatch_firstCore: "titleMatch s = firstCore s"
proof (induction s)
  case Nil
  show ?case by (simp add: titleHere_def titleCore_Nil)
next
  case (Cons c s)
  show ?case
  proof (cases "c = nl")
    case False
    then show ?thesis using Cons by (simp add: titleHere_def split: option.splits)
  next
    case True
    show ?thesis
    proof (cases "titleCore s")
      case None
      then show ?thesis using True Cons by (simp add: titleHere_def titleCore_nl)
    next
      case (Some t)
      then have "firstCore s = Some t" by (cases s) (simp_all add: titleCore_Nil)
      then show ?thesis using True Some by (simp add: titleHere_def titleCore_nl)
    qed
  qed
qed

lemma firstCore_None: "firstCore s = None \<longleftrightarrow> (\<forall>k. titleCore (drop k s) = None)"
proof (induction s)
  case Nil
  show ?case by (simp add: titleCore_Nil)
next
  case (Cons c s)
  show ?case
  proof
    assume a: "firstCore (c # s) = None"
    then have c0: "titleCore (c # s) = None" and r: "firstCore s = None"
      by (auto split: option.splits)
    show "\<forall>k. titleCore (drop k (c # s)) = None"
    proof
      fix k show "titleCore (drop k (c # s)) = None"
        using c0 r Cons by (cases k) simp_all
    qed
  next
    assume a: "\<forall>k. titleCore (drop k (c # s)) = None"
    then have "titleCore (c # s) = None" by (metis drop0)
    moreover have "\<forall>k. titleCore (drop k s) = None" using a by (metis drop_Suc_Cons)
    ultimately show "firstCore (c # s) = None" using Cons by simp
  qed
qed

lemma firstCore_Some:
  "firstCore s = Some t \<longleftrightarrow>
     (\<exists>k. titleCore (drop k s) = Some t \<and> (\<forall>j<k. titleCore (drop j s) = None))"
proof (induction s)
  case Nil
  show ?case by (simp add: titleCore_Nil)
next
  case (Cons c s)
  show ?case
  proof (cases "titleCore (c # s)")
    case (Some t')
    have "(\<exists>k. titleCore (drop k (c # s)) = Some t \<and> (\<forall>j<k. titleCore (drop j (c # s)) = None)) \<longleftrightarrow> t' = t"
    proof
      assume "\<exists>k. titleCore (drop k (c # s)) = Some t \<and> (\<forall>j<k. titleCore (drop j (c # s)) = None)"
      then obtain k where k: "titleCore (drop k (c # s)) = Some t" "\<forall>j<k. titleCore (drop j (c # s)) = None"
        by blast
      have "k = 0" using k(2) Some by (cases k) auto
      then show "t' = t" using k(1) Some by simp
    next
      assume "t' = t"
      then have "titleCore (drop 0 (c # s)) = Some t \<and> (\<forall>j<0. titleCore (drop j (c # s)) = None)"
        using Some by simp
      then show "\<exists>k. titleCore (drop k (c # s)) = Some t \<and> (\<forall>j<k. titleCore (drop j (c # s)) = None)"
        by blast
    qed
    then show ?thesis using Some by simp
  next
    case None
    have "(\<exists>k. titleCore (drop k (c # s)) = Some t \<and> (\<forall>j<k. titleCore (drop j (c # s)) = None)) \<longleftrightarrow>
          (\<exists>k. titleCore (drop k s) = Some t \<and> (\<forall>j<k. titleCore (drop j s) = None))"
    proof
      assume "\<exists>k. titleCore (drop k (c # s)) = Some t \<and> (\<forall>j<k. titleCore (drop j (c # s)) = None)"
      then obtain k where k: "titleCore (drop k (c # s)) = Some t" "\<forall>j<k. titleCore (drop j (c # s)) = None"
        by blast
      then obtain k' where k': "k = Suc k'" using None by (cases k) auto
      have "titleCore (drop k' s) = Some t" using k(1) k' by simp
      moreover have "\<forall>j<k'. titleCore (drop j s) = None"
      proof (intro allI impI)
        fix j assume "j < k'"
        then have "Suc j < k" using k' by simp
        then have "titleCore (drop (Suc j) (c # s)) = None" using k(2) by blast
        then show "titleCore (drop j s) = None" by simp
      qed
      ultimately show "\<exists>k. titleCore (drop k s) = Some t \<and> (\<forall>j<k. titleCore (drop j s) = None)"
        by blast
    next
      assume "\<exists>k. titleCore (drop k s) = Some t \<and> (\<forall>j<k. titleCore (drop j s) = None)"
      then obtain k where k: "titleCore (drop k s) = Some t" "\<forall>j<k. titleCore (drop j s) = None"
        by blast
      have "titleCore (drop (Suc k) (c # s)) = Some t" using k(1) by simp
      moreover have "\<forall>j<Suc k. titleCore (drop j (c # s)) = None"
      proof (intro allI impI)
        fix j assume j: "j < Suc k"
        show "titleCore (drop j (c # s)) = None"
          using None k(2) j by (cases j) simp_all
      qed
      ultimately show "\<exists>k. titleCore (drop k (c # s)) = Some t \<and> (\<forall>j<k. titleCore (drop j (c # s)) = None)"
        by blast
    qed
    then show ?thesis using None Cons by simp
  qed
qed


lemma occurrence_iff:
  "(\<exists>pre t post. content = pre @ js ''# '' @ t @ nl # post \<and> t \<noteq> [] \<and> nl \<notin> set t) \<longleftrightarrow>
   (\<exists>k t. titleCore (drop k content) = Some t)"
proof
  assume "\<exists>pre t post. content = pre @ js ''# '' @ t @ nl # post \<and> t \<noteq> [] \<and> nl \<notin> set t"
  then obtain pre t post where c: "content = pre @ js ''# '' @ t @ nl # post" "t \<noteq> []" "nl \<notin> set t"
    by blast
  then have "titleCore (drop (length pre) content) = Some t"
    by (simp add: titleCore_iff)
  then show "\<exists>k t. titleCore (drop k content) = Some t" by blast
next
  assume "\<exists>k t. titleCore (drop k content) = Some t"
  then obtain k t where k: "titleCore (drop k content) = Some t" by blast
  then obtain post where "drop k content = js ''# '' @ t @ nl # post" "t \<noteq> []" "nl \<notin> set t"
    by (auto simp: titleCore_iff)
  then have "content = take k content @ js ''# '' @ t @ nl # post \<and> t \<noteq> [] \<and> nl \<notin> set t"
    by (metis append_take_drop_id)
  then show "\<exists>pre t post. content = pre @ js ''# '' @ t @ nl # post \<and> t \<noteq> [] \<and> nl \<notin> set t"
    by blast
qed

lemma titleMatch_None:
  "titleMatch content = None \<longleftrightarrow>
     \<not> (\<exists>pre t post. content = pre @ js ''# '' @ t @ nl # post \<and> t \<noteq> [] \<and> nl \<notin> set t)"
  unfolding occurrence_iff titleMatch_firstCore firstCore_None by auto

lemma titleMatch_Some:
  "titleMatch content = Some title \<longleftrightarrow>
     (\<exists>pre post. content = pre @ js ''# '' @ title @ nl # post \<and> title \<noteq> [] \<and> nl \<notin> set title
        \<and> (\<forall>j<length pre. titleCore (drop j content) = None))"
proof
  assume "titleMatch content = Some title"
  then obtain k where k: "titleCore (drop k content) = Some title"
      "\<forall>j<k. titleCore (drop j content) = None"
    unfolding titleMatch_firstCore firstCore_Some by blast
  then obtain post where p: "drop k content = js ''# '' @ title @ nl # post" "title \<noteq> []" "nl \<notin> set title"
    by (auto simp: titleCore_iff)
  have kl: "k < length content" using p(1) by (cases "k < length content") auto
  have "content = take k content @ js ''# '' @ title @ nl # post"
    using p(1) by (metis append_take_drop_id)
  moreover have "length (take k content) = k" using kl by simp
  ultimately show "\<exists>pre post. content = pre @ js ''# '' @ title @ nl # post \<and> title \<noteq> [] \<and> nl \<notin> set title
        \<and> (\<forall>j<length pre. titleCore (drop j content) = None)"
    using p(2,3) k(2) by metis
next
  assume "\<exists>pre post. content = pre @ js ''# '' @ title @ nl # post \<and> title \<noteq> [] \<and> nl \<notin> set title
        \<and> (\<forall>j<length pre. titleCore (drop j content) = None)"
  then obtain pre post where c: "content = pre @ js ''# '' @ title @ nl # post" "title \<noteq> []"
      "nl \<notin> set title" "\<forall>j<length pre. titleCore (drop j content) = None"
    by blast
  have "titleCore (drop (length pre) content) = Some title"
    using c(1-3) by (simp add: titleCore_iff)
  then show "titleMatch content = Some title"
    unfolding titleMatch_firstCore firstCore_Some using c(4) by blast
qed

lemma processMarkdown_Inl: "processMarkdown content = Inl e \<longleftrightarrow> titleMatch content = None"
  by (cases e) (simp add: processMarkdown_def Let_def split: option.splits)

lemma titleMatch_first_line:
  assumes "title \<noteq> []" and "nl \<notin> set title"
  shows "titleMatch (js ''# '' @ title @ nl # post) = Some title"
proof -
  have "titleCore (js ''# '' @ title @ nl # post) = Some title"
    using assms by (simp add: titleCore_iff)
  moreover have "js ''# '' @ title @ nl # post = 35 # (32 # title @ nl # post)"
    by (simp add: js_def)
  ultimately show ?thesis by (simp add: titleMatch_firstCore)
qed


subsection \<open>The front matter\<close>

lemma frontMatter_two:
  "frontMatter [(js ''title'', JString a), (js ''sidebar_label'', b)] =
     js ''---'' @ [nl] @ js ''title: '' @ a @ [nl] @ js ''sidebar_label: '' @ toString b @ [nl] @ js ''---''"
  by (simp add: frontMatter_def toString_def js_def)

lemma processMarkdown_home:
  assumes "titleMatch content = Some (js ''Stylelint'')"
  shows "processMarkdown content =
           Inr (js ''---'' @ [nl] @ js ''title: Home'' @ [nl] @ js ''sidebar_label: Home'' @ [nl]
                @ js ''slug: /'' @ [nl] @ js ''---'' @ [nl, nl] @ content)"
  using assms
  by (simp add: processMarkdown_def titleToSidebarLabel_def orElse_def truthy_def
      frontMatter_def toString_def js_def)

lemma processMarkdown_other:
  assumes "titleMatch content = Some title" and "title \<noteq> js ''Stylelint''"
    and "title \<notin> set objectPrototypeKeys"
  shows "processMarkdown content =
           Inr (js ''---'' @ [nl] @ js ''title: '' @ title @ [nl] @ js ''sidebar_label: '' @ title @ [nl]
                @ js ''---'' @ [nl, nl] @ content)"
  using assms
  by (simp add: processMarkdown_def titleToSidebarLabel_def orElse_def Let_def frontMatter_two toString_def)

lemma processMarkdown_inherited:
  assumes "titleMatch content = Some title" and "title \<in> set objectPrototypeKeys"
  shows "processMarkdown content =
           Inr (js ''---'' @ [nl] @ js ''title: '' @ title @ [nl] @ js ''sidebar_label: ''
                @ toString (ObjectPrototypeMember title) @ [nl] @ js ''---'' @ [nl, nl] @ content)"
proof -
  have "title \<noteq> js ''Stylelint''"
    using assms(2) by (auto simp: objectPrototypeKeys_def js_def)
  then show ?thesis using assms
    by (simp add: processMarkdown_def titleToSidebarLabel_def orElse_def truthy_def Let_def frontMatter_two)
qed

text \<open>
  C9. The claim fails on a title that names a member of \<open>Object.prototype\<close>, here a
  document with the heading \<open>constructor\<close>: the lookup in the object literal finds the
  inherited member, which is truthy, and the \<open>sidebar_label\<close> line holds the printed
  function instead of the title.
\<close>

theorem processMarkdown_constructor_title:
  "processMarkdown (js ''# constructor'' @ [nl]) =
     Inr (js ''---'' @ [nl] @ js ''title: constructor'' @ [nl]
          @ js ''sidebar_label: function Object() { [native code] }'' @ [nl]
          @ js ''---'' @ [nl, nl] @ js ''# constructor'' @ [nl])"
proof -
  have "titleMatch (js ''# '' @ js ''constructor'' @ nl # []) = Some (js ''constructor'')"
    by (rule titleMatch_first_line) (simp_all add: js_def nl_def)
  then have "titleMatch (js ''# constructor'' @ [nl]) = Some (js ''constructor'')"
    by (simp add: js_def)
  from processMarkdown_inherited [OF this] show ?thesis
    by (simp add: objectPrototypeKeys_def toString_def js_def)
qed

text \<open>
  The match, characterised. The step fails exactly when the serialised text has no
  occurrence of \<open>#\<close>, a space, one or more characters other than a newline, and a
  newline. The title is the run of characters of the leftmost such occurrence. When
  the text starts with a top-level heading line, the title is the text of that
  heading.
\<close>

lemma processMarkdown_title_match:
  "(processMarkdown content = Inl TypeError \<longleftrightarrow>
      \<not> (\<exists>pre t post. content = pre @ js ''# '' @ t @ nl # post \<and> t \<noteq> [] \<and> nl \<notin> set t))
   \<and> (titleMatch content = Some title \<longleftrightarrow>
        (\<exists>pre post. content = pre @ js ''# '' @ title @ nl # post \<and> title \<noteq> [] \<and> nl \<notin> set title
           \<and> (\<forall>j<length pre. titleCore (drop j content) = None)))
   \<and> (title \<noteq> [] \<and> nl \<notin> set title \<longrightarrow> titleMatch (js ''# '' @ title @ nl # post) = Some title)"
proof (intro conjI)
  show "processMarkdown content = Inl TypeError \<longleftrightarrow>
      \<not> (\<exists>pre t post. content = pre @ js ''# '' @ t @ nl # post \<and> t \<noteq> [] \<and> nl \<notin> set t)"
    by (simp only: processMarkdown_Inl titleMatch_None)
  show "titleMatch content = Some title \<longleftrightarrow>
        (\<exists>pre post. content = pre @ js ''# '' @ title @ nl # post \<and> title \<noteq> [] \<and> nl \<notin> set title
           \<and> (\<forall>j<length pre. titleCore (drop j content) = None))"
    by (rule titleMatch_Some)
  show "title \<noteq> [] \<and> nl \<notin> set title \<longrightarrow> titleMatch (js ''# '' @ title @ nl # post) = Some title"
    by (simp add: titleMatch_first_line)
qed

lemma titleMatch_examples:
  "titleMatch onlyH2 = Some (js ''Foo'')" "titleMatch h2BeforeH1 = Some (js ''Intro'')"
  by (simp_all add: onlyH2_def h2BeforeH1_def titleHere_def titleCore_def js_def nl_def)

text \<open>
  C3. The claim fails because the match is not tied to the start of a line. A
  document with a second-level heading before its top-level heading gets its title
  from the second-level one, \<open>Intro\<close> where the first top-level heading reads \<open>Real\<close>.
  A document with a second-level heading only has no top-level heading, and the step
  does not fail: it takes the title \<open>Foo\<close> from that heading.
\<close>

theorem processMarkdown_title_not_from_h1:
  "claimedTitle (js ''## Intro'' @ [nl, nl] @ js ''# Real'' @ [nl]) = Some (js ''Real'')
   \<and> processMarkdown (js ''## Intro'' @ [nl, nl] @ js ''# Real'' @ [nl]) =
       Inr (js ''---'' @ [nl] @ js ''title: Intro'' @ [nl] @ js ''sidebar_label: Intro'' @ [nl]
            @ js ''---'' @ [nl, nl] @ js ''## Intro'' @ [nl, nl] @ js ''# Real'' @ [nl])
   \<and> claimedTitle (js ''## Foo'' @ [nl]) = None
   \<and> processMarkdown (js ''## Foo'' @ [nl]) =
       Inr (js ''---'' @ [nl] @ js ''title: Foo'' @ [nl] @ js ''sidebar_label: Foo'' @ [nl]
            @ js ''---'' @ [nl, nl] @ js ''## Foo'' @ [nl])"
proof (intro conjI)
  show "claimedTitle (js ''## Intro'' @ [nl, nl] @ js ''# Real'' @ [nl]) = Some (js ''Real'')"
    by (simp add: claimedTitle_def js_def nl_def)
  show "claimedTitle (js ''## Foo'' @ [nl]) = None"
    by (simp add: claimedTitle_def js_def nl_def)
  from processMarkdown_other [OF titleMatch_examples(2)]
  show "processMarkdown (js ''## Intro'' @ [nl, nl] @ js ''# Real'' @ [nl]) =
       Inr (js ''---'' @ [nl] @ js ''title: Intro'' @ [nl] @ js ''sidebar_label: Intro'' @ [nl]
            @ js ''---'' @ [nl, nl] @ js ''## Intro'' @ [nl, nl] @ js ''# Real'' @ [nl])"
    by (simp add: h2BeforeH1_def objectPrototypeKeys_def js_def)
  from processMarkdown_other [OF titleMatch_examples(1)]
  show "processMarkdown (js ''## Foo'' @ [nl]) =
       Inr (js ''---'' @ [nl] @ js ''title: Foo'' @ [nl] @ js ''sidebar_label: Foo'' @ [nl]
            @ js ''---'' @ [nl, nl] @ js ''## Foo'' @ [nl])"
    by (simp add: onlyH2_def objectPrototypeKeys_def js_def)
qed

end
